theory Spec2Isabelle
  imports Complex_Main "HOL-Library.AList" "HOL-Library.Sublist"
begin

section \<open>The LLM tester: strings, prompts and the transcript rewriter\<close>

text \<open>
  A shallow embedding of \<^verbatim>\<open>llm_tester.py\<close>. Python strings are lists of characters; a
  character stands for a code point below 256. The terminal, the process-wide option
  dictionary, the requests sent to the chat-completion endpoint and the output file are
  fields of one explicit state, passed through every function that touches them.
\<close>

subsection \<open>Strings\<close>

abbreviation NL :: char where
  "NL \<equiv> CHR 0x0A"

text \<open>\<^verbatim>\<open>str.isspace\<close> on the code points below 256: tab, line feed, vertical tab, form
  feed, carriage return, the four separators 0x1C to 0x1F, space, next line and no-break
  space.\<close>

definition isspace :: "char \<Rightarrow> bool" where
  "isspace c = (c \<in> set [CHR 0x09, CHR 0x0A, CHR 0x0B, CHR 0x0C, CHR 0x0D,
                          CHR 0x1C, CHR 0x1D, CHR 0x1E, CHR 0x1F, CHR 0x20,
                          CHR 0x85, CHR 0xA0])"

definition strip :: "string \<Rightarrow> string" where
  "strip s = dropWhile isspace (rev (dropWhile isspace (rev s)))"

definition startswith :: "string \<Rightarrow> string \<Rightarrow> bool" where
  "startswith s p = prefix p s"

subsection \<open>The built-in conversions \<^verbatim>\<open>int()\<close> and \<^verbatim>\<open>float()\<close>\<close>

text \<open>
  Both follow the grammar of the language reference: surrounding whitespace is removed, a
  sign may come first, and a digit part is a run of decimal digits in which single
  underscores may separate digits. \<open>None\<close> stands for \<^verbatim>\<open>ValueError\<close>.
\<close>

definition isdigit :: "char \<Rightarrow> bool" where
  "isdigit c = (48 \<le> (of_char c :: nat) \<and> (of_char c :: nat) \<le> 57)"

definition digit_value :: "char \<Rightarrow> nat" where
  "digit_value c = of_char c - 48"

text \<open>\<open>digits_tail v n s\<close> reads the rest of a digit part: \<open>v\<close> is the value and \<open>n\<close> the
  number of digits read so far; the unread input is returned with them.\<close>

fun digits_tail :: "nat \<Rightarrow> nat \<Rightarrow> string \<Rightarrow> nat \<times> nat \<times> string" where
  "digits_tail v n [] = (v, n, [])"
| "digits_tail v n (c # cs) =
     (if isdigit c then digits_tail (10 * v + digit_value c) (Suc n) cs
      else if c = CHR ''_'' then
        (case cs of
           [] \<Rightarrow> (v, n, c # cs)
         | d # ds \<Rightarrow>
             if isdigit d then digits_tail (10 * v + digit_value d) (Suc n) ds
             else (v, n, c # cs))
      else (v, n, c # cs))"

definition digitpart :: "string \<Rightarrow> (nat \<times> nat \<times> string) option" where
  "digitpart s =
     (case s of
        [] \<Rightarrow> None
      | c # cs \<Rightarrow> if isdigit c then Some (digits_tail (digit_value c) 1 cs) else None)"

definition sign_of :: "string \<Rightarrow> bool \<times> string" where
  "sign_of s =
     (case s of
        [] \<Rightarrow> (False, [])
      | c # cs \<Rightarrow>
          if c = CHR ''-'' then (True, cs)
          else if c = CHR ''+'' then (False, cs)
          else (False, s))"

definition py_int :: "string \<Rightarrow> int option" where
  "py_int s =
     (case sign_of (strip s) of
        (neg, r) \<Rightarrow>
          (case digitpart r of
             Some (v, n, []) \<Rightarrow> Some (if neg then - int v else int v)
           | _ \<Rightarrow> None))"

text \<open>
  A Python float is a finite number, an infinity or a NaN. A finite value is kept as the
  rational number its literal denotes: the rounding to the nearest binary64 number is left
  out, and so is the sign of zero. The bounds the program compares with (\<open>-2.0\<close>, \<open>0.0\<close>,
  \<open>2.0\<close>) are binary64 numbers and rounding is monotone, so a literal inside the bounds is
  inside them after rounding too.
\<close>

datatype pyfloat = Finite rat | PosInf | NegInf | NaN

fun float_lt :: "pyfloat \<Rightarrow> pyfloat \<Rightarrow> bool" where
  "float_lt NaN _ = False"
| "float_lt _ NaN = False"
| "float_lt (Finite a) (Finite b) = (a < b)"
| "float_lt NegInf NegInf = False"
| "float_lt NegInf _ = True"
| "float_lt _ NegInf = False"
| "float_lt PosInf _ = False"
| "float_lt _ PosInf = True"

definition float_gt :: "pyfloat \<Rightarrow> pyfloat \<Rightarrow> bool" where
  "float_gt a b = float_lt b a"

definition scale10 :: "rat \<Rightarrow> int \<Rightarrow> rat" where
  "scale10 m e = (if 0 \<le> e then m * 10 ^ nat e else m / 10 ^ nat (- e))"

text \<open>What may follow the number: nothing, or an exponent that ends the string.\<close>

definition exponent :: "string \<Rightarrow> int option" where
  "exponent s =
     (case s of
        [] \<Rightarrow> Some 0
      | c # cs \<Rightarrow>
          if c = CHR ''e'' \<or> c = CHR ''E'' then
            (case sign_of cs of
               (neg, ds) \<Rightarrow>
                 (case digitpart ds of
                    Some (v, n, []) \<Rightarrow> Some (if neg then - int v else int v)
                  | _ \<Rightarrow> None))
          else None)"

definition floatnumber :: "string \<Rightarrow> rat option" where
  "floatnumber s =
     (case digitpart s of
        Some (i, n, r) \<Rightarrow>
          (case r of
             [] \<Rightarrow> Some (of_nat i)
           | c # cs \<Rightarrow>
               if c = CHR ''.'' then
                 (case digitpart cs of
                    Some (f, k, r') \<Rightarrow>
                      map_option (scale10 (of_nat i + of_nat f / 10 ^ k)) (exponent r')
                  | None \<Rightarrow> map_option (scale10 (of_nat i)) (exponent cs))
               else map_option (scale10 (of_nat i)) (exponent r))
      | None \<Rightarrow>
          (case s of
             [] \<Rightarrow> None
           | c # cs \<Rightarrow>
               if c = CHR ''.'' then
                 (case digitpart cs of
                    Some (f, k, r') \<Rightarrow> map_option (scale10 (of_nat f / 10 ^ k)) (exponent r')
                  | None \<Rightarrow> None)
               else None))"

definition to_lower :: "char \<Rightarrow> char" where
  "to_lower c =
     (if 65 \<le> (of_char c :: nat) \<and> (of_char c :: nat) \<le> 90
      then char_of ((of_char c :: nat) + 32) else c)"

definition py_float :: "string \<Rightarrow> pyfloat option" where
  "py_float s =
     (case sign_of (strip s) of
        (neg, r) \<Rightarrow>
          if map to_lower r = ''inf'' \<or> map to_lower r = ''infinity''
          then Some (if neg then NegInf else PosInf)
          else if map to_lower r = ''nan'' then Some NaN
          else map_option (\<lambda>q. Finite (if neg then - q else q)) (floatnumber r))"

subsection \<open>The state of a run\<close>

datatype error = EOFError | IndexError | AttributeError | APIError string

datatype printed = Prompt string | Print string | PrintFloatRange pyfloat pyfloat

datatype optval = StrVal string | FloatVal pyfloat | IntVal int

type_synonym options = "(string \<times> optval) list"

record ChatCompletionMessage =
  role :: string
  content :: "string option"

datatype ChatHistoryEntry = Message ChatCompletionMessage | Dict "(string \<times> string) list"

datatype message_content = Str string | Msg ChatCompletionMessage

text \<open>
  \<open>stdin\<close> holds the lines the operator has still to type, \<open>stdout\<close> what the program has
  printed, \<open>requestOptions\<close> the global dictionary (an association list in insertion order,
  \<open>[]\<close> for \<^verbatim>\<open>{}\<close>), \<open>requests\<close> the calls made to the endpoint, each with the options and
  the history as they were at the call, and \<open>outputFile\<close> the text written to the result
  file so far.
\<close>

record world =
  stdin :: "string list"
  stdout :: "printed list"
  requestOptions :: options
  requests :: "(options \<times> ChatHistoryEntry list) list"
  outputFile :: string

text \<open>
  The client is a function from the options and the history to an error or the messages of
  the returned choices. Within one run every call has a longer history than the one before,
  so a function of the history can give any sequence of replies.
\<close>

type_synonym api = "options \<Rightarrow> ChatHistoryEntry list \<Rightarrow> error + ChatCompletionMessage list"

definition print_line :: "printed \<Rightarrow> world \<Rightarrow> world" where
  "print_line p w = w\<lparr>stdout := stdout w @ [p]\<rparr>"

definition file_write :: "string \<Rightarrow> world \<Rightarrow> world" where
  "file_write s w = w\<lparr>outputFile := outputFile w @ s\<rparr>"

text \<open>\<^verbatim>\<open>input(prompt)\<close>: the prompt is shown, then a line is read without its line end; at the
  end of the input \<^verbatim>\<open>EOFError\<close> is raised.\<close>

definition input :: "string \<Rightarrow> world \<Rightarrow> (error + string) \<times> world" where
  "input prompt w =
     (case stdin w of
        [] \<Rightarrow> (Inl EOFError, print_line (Prompt prompt) w)
      | l # ls \<Rightarrow> (Inr l, (print_line (Prompt prompt) w)\<lparr>stdin := ls\<rparr>))"

subsection \<open>The prompt helpers\<close>

text \<open>
  The two numeric prompts loop until an answer is accepted. \<^verbatim>\<open>except Exception\<close> also catches
  the \<^verbatim>\<open>EOFError\<close> of \<^verbatim>\<open>input\<close>, so at the end of the input the loop never ends: the result
  \<open>None\<close> of the outer option type stands for a call that does not return.
\<close>

partial_function (option) inputFloatBetween ::
  "string \<Rightarrow> pyfloat \<Rightarrow> pyfloat \<Rightarrow> bool \<Rightarrow> world \<Rightarrow> (pyfloat option \<times> world) option" where
  "inputFloatBetween question min_value max_value allow_null w =
     (case input (strip question @ '' '') w of
        (Inl e, w') \<Rightarrow>
          inputFloatBetween question min_value max_value allow_null
            (print_line (PrintFloatRange min_value max_value) w')
      | (Inr result, w') \<Rightarrow>
          if strip result = [] \<and> allow_null then Some (None, w')
          else
            (case py_float result of
               None \<Rightarrow>
                 inputFloatBetween question min_value max_value allow_null
                   (print_line (PrintFloatRange min_value max_value) w')
             | Some r \<Rightarrow>
                 if float_gt r max_value \<or> float_lt r min_value
                 then inputFloatBetween question min_value max_value allow_null
                        (print_line (PrintFloatRange min_value max_value) w')
                 else Some (Some r, w')))"

partial_function (option) inputInt ::
  "string \<Rightarrow> bool \<Rightarrow> world \<Rightarrow> (int option \<times> world) option" where
  "inputInt question allow_null w =
     (case input (strip question @ '' '') w of
        (Inl e, w') \<Rightarrow>
          inputInt question allow_null
            (print_line (Print ''please enter an integer (whole number)'') w')
      | (Inr result, w') \<Rightarrow>
          if strip result = [] \<and> allow_null then Some (None, w')
          else
            (case py_int result of
               None \<Rightarrow>
                 inputInt question allow_null
                   (print_line (Print ''please enter an integer (whole number)'') w')
             | Some n \<Rightarrow> Some (Some n, w')))"

declare inputFloatBetween.simps [code]
declare inputInt.simps [code]

definition inputStringOrNull :: "string \<Rightarrow> world \<Rightarrow> (error + string option) \<times> world" where
  "inputStringOrNull question w =
     (case input (strip question @ '' '') w of
        (Inl e, w') \<Rightarrow> (Inl e, w')
      | (Inr line, w') \<Rightarrow>
          (let result = strip line
           in if result = [] then (Inr None, w') else (Inr (Some result), w')))"

definition inputStringOrDefault :: "string \<Rightarrow> string \<Rightarrow> world \<Rightarrow> (error + string) \<times> world" where
  "inputStringOrDefault question default_value w =
     (case inputStringOrNull question w of
        (Inl e, w') \<Rightarrow> (Inl e, w')
      | (Inr result, w') \<Rightarrow>
          (case result of
             None \<Rightarrow> (Inr default_value, w')
           | Some r \<Rightarrow> if r = [] then (Inr default_value, w') else (Inr r, w')))"

subsection \<open>The request options\<close>

definition options_banner :: string where
  "options_banner =
     ''please enter options that we will pass on with each request to the LLM (all are optional)''"

definition model_question :: string where
  "model_question = ''ID of the model to use:''"

definition frequency_penalty_question :: string where
  "frequency_penalty_question = ''frequency_penalty: Number between -2.0 and 2.0''"

definition max_tokens_question :: string where
  "max_tokens_question =
     ''max_tokens: The maximum number of [tokens](/tokenizer) that can be generated in the chat completion''"

definition presence_penalty_question :: string where
  "presence_penalty_question =
     ''presence_penalty: Number between -2.0 and 2.0. Positive values penalize new tokens based on whether they appear in the text so far, increasing the model's likelihood to talk about new topics.''"

definition temperature_question :: string where
  "temperature_question =
     ''temperature: What sampling temperature to use, between 0 and 2.0. Higher values like 0.8 will make the output more random, while lower values like 0.2 will make it more focused and deterministic.''"

text \<open>\<^verbatim>\<open>requestOptions[key] = value\<close>, and the same under \<^verbatim>\<open>if value is not None\<close>.\<close>

definition set_option :: "string \<Rightarrow> optval \<Rightarrow> world \<Rightarrow> world" where
  "set_option key v w = w\<lparr>requestOptions := AList.update key v (requestOptions w)\<rparr>"

definition set_option_unless_none :: "string \<Rightarrow> optval option \<Rightarrow> world \<Rightarrow> world" where
  "set_option_unless_none key v w = (case v of None \<Rightarrow> w | Some x \<Rightarrow> set_option key x w)"

definition getRequestOptions :: "world \<Rightarrow> ((error + options) \<times> world) option" where
  "getRequestOptions w =
     (if requestOptions w = [] then
        (case inputStringOrDefault model_question ''local-model''
                (print_line (Print options_banner) w) of
           (Inl e, w1) \<Rightarrow> Some (Inl e, w1)
         | (Inr model, w1) \<Rightarrow>
             (case inputFloatBetween frequency_penalty_question (Finite (- 2)) (Finite 2) True
                     (set_option ''model'' (StrVal model) w1) of
                None \<Rightarrow> None
              | Some (frequency_penalty, w2) \<Rightarrow>
                  (case inputInt max_tokens_question True
                          (set_option_unless_none ''frequency_penalty''
                             (map_option FloatVal frequency_penalty) w2) of
                     None \<Rightarrow> None
                   | Some (max_tokens, w3) \<Rightarrow>
                       (case inputFloatBetween presence_penalty_question (Finite (- 2)) (Finite 2)
                               True
                               (set_option_unless_none ''max_tokens''
                                  (map_option IntVal max_tokens) w3) of
                          None \<Rightarrow> None
                        | Some (presence_penalty, w4) \<Rightarrow>
                            (case inputFloatBetween temperature_question (Finite 0) (Finite 2) True
                                    (set_option_unless_none ''presence_penalty''
                                       (map_option FloatVal presence_penalty) w4) of
                               None \<Rightarrow> None
                             | Some (temperature, w5) \<Rightarrow>
                                 (let w6 = set_option_unless_none ''temperature''
                                             (map_option FloatVal temperature) w5
                                  in Some (Inr (requestOptions w6), w6)))))))
      else Some (Inr (requestOptions w), w))"

subsection \<open>The request and the history\<close>

text \<open>
  \<^verbatim>\<open>getAnswer\<close> evaluates \<^verbatim>\<open>getRequestOptions()\<close>, makes the call, and takes the message of the
  first choice; an empty list of choices is an \<^verbatim>\<open>IndexError\<close>. Nothing is caught.
\<close>

definition getAnswer ::
  "api \<Rightarrow> ChatHistoryEntry list \<Rightarrow> world \<Rightarrow> ((error + ChatCompletionMessage) \<times> world) option" where
  "getAnswer api messages w =
     (case getRequestOptions w of
        None \<Rightarrow> None
      | Some (Inl e, w1) \<Rightarrow> Some (Inl e, w1)
      | Some (Inr opts, w1) \<Rightarrow>
          (let w2 = w1\<lparr>requests := requests w1 @ [(opts, messages)]\<rparr>
           in case api opts messages of
                Inl e \<Rightarrow> Some (Inl e, w2)
              | Inr choices \<Rightarrow>
                  (case choices of
                     [] \<Rightarrow> Some (Inl IndexError, w2)
                   | answer # others \<Rightarrow> Some (Inr answer, w2))))"

definition getMessageHistoryEntry :: "message_content \<Rightarrow> string \<Rightarrow> ChatHistoryEntry" where
  "getMessageHistoryEntry c r =
     (case c of
        Msg m \<Rightarrow> Message m
      | Str s \<Rightarrow> Dict [(''role'', r), (''content'', s)])"

subsection \<open>The transcript rewriter\<close>

text \<open>
  Iterating over the input file yields its lines, each with its line end, the last one
  without if the file does not end with one. The text is the decoded one, in which every
  line end is a line feed.
\<close>

fun file_lines :: "string \<Rightarrow> string list" where
  "file_lines [] = []"
| "file_lines (c # cs) =
     (if c = NL then [c] # file_lines cs
      else (case file_lines cs of
              [] \<Rightarrow> [[c]]
            | l # ls \<Rightarrow> (c # l) # ls))"

text \<open>
  The body of the loop, for one line. The history is a local variable of the rewriter: it
  is an argument here and the new history is the result. An error leaves the state as it
  was when the error was raised; the output file keeps what was written.
\<close>

definition process_line ::
  "api \<Rightarrow> ChatHistoryEntry list \<Rightarrow> string \<Rightarrow> world
     \<Rightarrow> ((error + ChatHistoryEntry list) \<times> world) option" where
  "process_line api messages line w =
     (if startswith line ''- Q: '' then
        (let w1 = file_write line w;
             question = strip (drop 5 line);
             w2 = print_line (Print (''generating answer for: '' @ question)) w1;
             messages1 = messages @ [getMessageHistoryEntry (Str question) ''user'']
         in case getAnswer api messages1 w2 of
              None \<Rightarrow> None
            | Some (Inl e, w3) \<Rightarrow> Some (Inl e, w3)
            | Some (Inr answer, w3) \<Rightarrow>
                (case content answer of
                   None \<Rightarrow> Some (Inl AttributeError, w3)
                 | Some body \<Rightarrow>
                     Some (Inr (messages1 @ [Message answer]),
                           file_write (''- A: '' @ strip body @ [NL]) w3)))
      else if startswith line ''- A:'' then Some (Inr messages, w)
      else Some (Inr messages, file_write line w))"

fun process_lines ::
  "api \<Rightarrow> ChatHistoryEntry list \<Rightarrow> string list \<Rightarrow> world
     \<Rightarrow> ((error + ChatHistoryEntry list) \<times> world) option" where
  "process_lines api messages [] w = Some (Inr messages, w)"
| "process_lines api messages (line # rest) w =
     (case process_line api messages line w of
        None \<Rightarrow> None
      | Some (Inl e, w') \<Rightarrow> Some (Inl e, w')
      | Some (Inr messages', w') \<Rightarrow> process_lines api messages' rest w')"

text \<open>
  The rewriter takes the text of the input file; opening the output file for writing
  empties it. The final history is returned so that it can be observed.
\<close>

definition fillOutputFileUsingConversationHistory ::
  "api \<Rightarrow> string option \<Rightarrow> string \<Rightarrow> world
     \<Rightarrow> ((error + ChatHistoryEntry list) \<times> world) option" where
  "fillOutputFileUsingConversationHistory api system_message inputFile w =
     (let messages =
            (case system_message of
               None \<Rightarrow> []
             | Some s \<Rightarrow>
                 if s = [] then [] else [getMessageHistoryEntry (Str s) ''system''])
      in process_lines api messages (file_lines inputFile) (w\<lparr>outputFile := []\<rparr>))"

subsection \<open>Example inputs\<close>

text \<open>A state in which the options have been collected, a reply with a given content, and
  a client that gives the same reply to every request.\<close>

definition ready_world :: world where
  "ready_world = \<lparr>stdin = [], stdout = [], requestOptions = [(''model'', StrVal ''local-model'')],
     requests = [], outputFile = []\<rparr>"

definition reply :: "string \<Rightarrow> ChatCompletionMessage" where
  "reply s = \<lparr>role = ''assistant'', content = Some s\<rparr>"

definition constant_api :: "string \<Rightarrow> api" where
  "constant_api s opts messages = Inr [reply s]"

definition flaky_api :: api where
  "flaky_api opts messages =
     (if length messages < 2 then Inr [reply ''fine''] else Inl (APIError ''connection lost''))"

definition two_questions :: string where
  "two_questions = ''- Q: one'' @ [NL] @ ''- Q: two'' @ [NL]"

definition heading_and_two_questions :: string where
  "heading_and_two_questions = ''# Test'' @ [NL] @ ''- Q: one'' @ [NL] @ ''- Q: two'' @ [NL] @ ''bye'' @ [NL]"

abbreviation user_message :: "string \<Rightarrow> ChatHistoryEntry" where
  "user_message line \<equiv> Dict [(''role'', ''user''), (''content'', strip (drop 5 line))]"

definition terminated :: "string \<Rightarrow> bool" where
  "terminated l = (l \<noteq> [] \<and> last l = NL \<and> NL \<notin> set (butlast l))"

fun well_split :: "string list \<Rightarrow> bool" where
  "well_split [] = True"
| "well_split [l] = (l \<noteq> [] \<and> NL \<notin> set (butlast l))"
| "well_split (l # m # ls) = (terminated l \<and> well_split (m # ls))"


subsection \<open>The lines of a transcript, as the specification describes them\<close>

text \<open>
  Modelled from the specification, to be compared with the rewriter. A transcript line is a
  Question line (it starts with \<^verbatim>\<open>- Q: \<close>), an Answer line (it starts with \<^verbatim>\<open>- A:\<close>) or another
  line. The answers of a run are the stripped contents of the messages that the run appended
  to the history. The expected output has, for each Question line of the input, the line
  itself followed by the line of its answer; the Answer lines of the input are left out and
  the other lines are kept.
\<close>

definition is_question :: "string \<Rightarrow> bool" where
  "is_question line = startswith line ''- Q: ''"

definition is_answer :: "string \<Rightarrow> bool" where
  "is_answer line = startswith line ''- A:''"

definition is_other :: "string \<Rightarrow> bool" where
  "is_other line = (\<not> is_question line \<and> \<not> is_answer line)"

fun generated_answers :: "ChatHistoryEntry list \<Rightarrow> string list" where
  "generated_answers [] = []"
| "generated_answers (Message m # es) =
     (case content m of
        None \<Rightarrow> generated_answers es
      | Some body \<Rightarrow> strip body # generated_answers es)"
| "generated_answers (Dict d # es) = generated_answers es"

definition answer_line :: "string \<Rightarrow> string" where
  "answer_line a = ''- A: '' @ a @ [NL]"

fun spec_output :: "string list \<Rightarrow> string list \<Rightarrow> string list" where
  "spec_output [] as = []"
| "spec_output (l # ls) as =
     (if is_question l then
        (case as of
           [] \<Rightarrow> l # spec_output ls []
         | a # as' \<Rightarrow> l # answer_line a # spec_output ls as')
      else if is_answer l then spec_output ls as
      else l # spec_output ls as)"

text \<open>Every Question line of a list of lines is followed by an Answer line, and that one by
  no second Answer line.\<close>

fun each_question_answered :: "string list \<Rightarrow> bool" where
  "each_question_answered [] = True"
| "each_question_answered [l] = (\<not> is_question l)"
| "each_question_answered (l # a # rest) =
     ((if is_question l
       then is_answer a \<and> (case rest of [] \<Rightarrow> True | b # bs \<Rightarrow> \<not> is_answer b)
       else True)
      \<and> each_question_answered (a # rest))"

definition stale_transcript :: string where
  "stale_transcript =
     ''# Test'' @ [NL] @ ''- Q: one'' @ [NL] @ ''- A: stale'' @ [NL] @ ''- Q: two'' @ [NL] @ ''bye''"


section \<open>Properties\<close>

subsection \<open>Stripping\<close>

lemma strip_via: "dropWhile isspace (rev s) = ys \<Longrightarrow> strip s = dropWhile isspace (rev ys)"
  by (auto simp: strip_def)

lemma strip_Nil_iff: "strip s = [] \<longleftrightarrow> list_all isspace s"
proof (cases "dropWhile isspace (rev s)")
  case Nil
  then have "list_all isspace s"
    by (simp add: dropWhile_eq_Nil_conv list_all_iff)
  moreover from strip_via [OF Nil] have "strip s = []"
    by simp
  ultimately show ?thesis
    by simp
next
  case (Cons a as)
  then have a: "\<not> isspace a"
    using hd_dropWhile [of isspace "rev s"] by force
  from Cons have "\<not> list_all isspace s"
    using dropWhile_eq_Nil_conv [of isspace "rev s"] by (simp add: list_all_iff)
  moreover from a have "dropWhile isspace (rev (a # as)) \<noteq> []"
    by (simp add: dropWhile_eq_Nil_conv)
  ultimately show ?thesis
    using strip_via [OF Cons] by simp
qed

lemma last_dropWhile_keep:
  "xs \<noteq> [] \<Longrightarrow> \<not> P (last xs) \<Longrightarrow> dropWhile P xs \<noteq> [] \<and> last (dropWhile P xs) = last xs"
  by (induction xs) (auto split: if_splits)

lemma strip_hd: "strip s \<noteq> [] \<Longrightarrow> \<not> isspace (hd (strip s))"
  unfolding strip_def by (rule hd_dropWhile)

lemma strip_last:
  assumes "strip s \<noteq> []"
  shows "\<not> isspace (last (strip s))"
proof -
  let ?ys = "dropWhile isspace (rev s)"
  have ne: "?ys \<noteq> []"
  proof
    assume "?ys = []"
    from strip_via [OF this] have "strip s = []"
      by simp
    with assms show False by simp
  qed
  then have h: "\<not> isspace (hd ?ys)"
    by (rule hd_dropWhile)
  have "last (rev ?ys) = hd ?ys"
    using ne by (simp add: last_rev)
  with h ne have "last (dropWhile isspace (rev ?ys)) = hd ?ys"
    using last_dropWhile_keep [of "rev ?ys" isspace] by simp
  with h show ?thesis
    by (simp add: strip_def)
qed

lemma strip_id:
  assumes "s \<noteq> []" "\<not> isspace (hd s)" "\<not> isspace (last s)"
  shows "strip s = s"
proof -
  from assms have "dropWhile isspace (rev s) = rev s"
    by (cases "rev s") (auto simp: hd_rev)
  moreover from assms have "dropWhile isspace s = s"
    by (cases s) auto
  ultimately show ?thesis
    by (simp add: strip_def)
qed

lemma strip_strip: "strip (strip s) = strip s"
proof (cases "strip s = []")
  case True
  then show ?thesis
    using strip_Nil_iff [of "[]"] by simp
next
  case False
  then show ?thesis
    by (intro strip_id strip_hd strip_last)
qed

subsection \<open>Line classification\<close>

text \<open>
  Claim C9. A line that begins with \<open>- Q:\<close> but not with \<open>- Q: \<close> is neither a Question
  line nor an Answer line: the loop body writes it to the output as it is, sends no request
  and returns the history it was given.
\<close>

theorem question_marker_without_space_is_other:
  assumes "startswith line ''- Q:''" and "\<not> startswith line ''- Q: ''"
  shows "process_line api messages line w = Some (Inr messages, file_write line w)
       \<and> requests (file_write line w) = requests w
       \<and> outputFile (file_write line w) = outputFile w @ line"
proof -
  from assms(1) have "\<not> startswith line ''- A:''"
    by (auto simp: startswith_def prefix_def)
  with assms(2) show ?thesis
    by (simp add: process_line_def file_write_def)
qed

theorem question_marker_without_space_is_other_witness:
  "startswith ''- Q:text'' ''- Q:'' \<and> \<not> startswith ''- Q:text'' ''- Q: ''
   \<and> process_line (constant_api ''4'') [] ''- Q:text'' ready_world
       = Some (Inr [], file_write ''- Q:text'' ready_world)
   \<and> requests (file_write ''- Q:text'' ready_world) = []
   \<and> outputFile (file_write ''- Q:text'' ready_world) = ''- Q:text''"
  using question_marker_without_space_is_other
          [of "''- Q:text''" "constant_api ''4''" "[]" ready_world]
  by (simp add: startswith_def ready_world_def)

subsection \<open>String prompts\<close>

text \<open>
  Claim C10. When the operator types a line made of whitespace only (the empty line
  included), \<open>inputStringOrNull\<close> returns \<open>None\<close> and \<open>inputStringOrDefault\<close> returns the
  default it was given; any other line is returned without its leading and trailing
  whitespace, so that the result neither begins nor ends with a whitespace character.
\<close>

theorem string_prompts_strip_and_treat_blank_as_empty:
  assumes "stdin w = r # rest"
  shows "inputStringOrNull question w =
           (Inr (if list_all isspace r then None else Some (strip r)),
            (print_line (Prompt (strip question @ '' '')) w)\<lparr>stdin := rest\<rparr>)
       \<and> inputStringOrDefault question default_value w =
           (Inr (if list_all isspace r then default_value else strip r),
            (print_line (Prompt (strip question @ '' '')) w)\<lparr>stdin := rest\<rparr>)
       \<and> (if list_all isspace r then strip r = []
           else strip r \<noteq> [] \<and> \<not> isspace (hd (strip r)) \<and> \<not> isspace (last (strip r)))"
  using assms strip_hd [of r] strip_last [of r]
  by (simp add: inputStringOrNull_def inputStringOrDefault_def input_def strip_Nil_iff)

theorem string_prompts_strip_and_treat_blank_as_empty_witness:
  "stdin (ready_world\<lparr>stdin := [''  gpt  '', ''   '']\<rparr>) = ''  gpt  '' # [''   '']
   \<and> fst (inputStringOrNull ''name?'' (ready_world\<lparr>stdin := [''  gpt  '', ''   '']\<rparr>)) = Inr (Some ''gpt'')
   \<and> fst (inputStringOrDefault ''name?'' ''local-model'' (ready_world\<lparr>stdin := [''  gpt  '', ''   '']\<rparr>)) = Inr ''gpt''"
  using string_prompts_strip_and_treat_blank_as_empty
          [of "ready_world\<lparr>stdin := [''  gpt  '', ''   '']\<rparr>" "''  gpt  ''" "[''   '']" "''name?''" "''local-model''"]
  by (simp add: isspace_def strip_def)

subsection \<open>A Question line\<close>

lemma getRequestOptions_cached:
  "requestOptions w \<noteq> [] \<Longrightarrow> getRequestOptions w = Some (Inr (requestOptions w), w)"
  by (simp add: getRequestOptions_def)

lemma getAnswer_cached:
  assumes "requestOptions w \<noteq> []"
  shows "getAnswer api messages w =
           (case api (requestOptions w) messages of
              Inl e \<Rightarrow> Some (Inl e, w\<lparr>requests := requests w @ [(requestOptions w, messages)]\<rparr>)
            | Inr [] \<Rightarrow> Some (Inl IndexError, w\<lparr>requests := requests w @ [(requestOptions w, messages)]\<rparr>)
            | Inr (answer # others) \<Rightarrow>
                Some (Inr answer, w\<lparr>requests := requests w @ [(requestOptions w, messages)]\<rparr>))"
  using assms
  by (simp add: getAnswer_def getRequestOptions_cached split: sum.splits list.splits)

lemma process_lines_append:
  "process_lines api messages (xs @ ys) w =
     (case process_lines api messages xs w of
        None \<Rightarrow> None
      | Some (Inl e, w') \<Rightarrow> Some (Inl e, w')
      | Some (Inr messages', w') \<Rightarrow> process_lines api messages' ys w')"
  by (induction xs arbitrary: messages w) (auto split: option.splits sum.splits)

lemma process_line_question:
  assumes "startswith line ''- Q: ''"
    and "requestOptions w \<noteq> []"
    and "api (requestOptions w)
           (messages @ [Dict [(''role'', ''user''), (''content'', strip (drop 5 line))]])
         = Inr (answer # others)"
    and "content answer = Some body"
  shows "process_line api messages line w =
           Some (Inr (messages @ [Dict [(''role'', ''user''), (''content'', strip (drop 5 line))],
                                  Message answer]),
                 w\<lparr>stdout := stdout w @ [Print (''generating answer for: '' @ strip (drop 5 line))],
                   requests := requests w @
                     [(requestOptions w,
                       messages @ [Dict [(''role'', ''user''), (''content'', strip (drop 5 line))]])],
                   outputFile := outputFile w @ line @ ''- A: '' @ strip body @ [NL]\<rparr>)"
  using assms
  by (simp add: process_line_def getAnswer_cached getMessageHistoryEntry_def file_write_def Let_def
      print_line_def)

lemma process_line_question_error:
  assumes "startswith line ''- Q: ''"
    and "requestOptions w \<noteq> []"
    and "api (requestOptions w) (messages @ [user_message line]) = Inl e"
  shows "process_line api messages line w =
           Some (Inl e,
                 w\<lparr>stdout := stdout w @ [Print (''generating answer for: '' @ strip (drop 5 line))],
                   requests := requests w @ [(requestOptions w, messages @ [user_message line])],
                   outputFile := outputFile w @ line\<rparr>)"
  using assms
  by (simp add: process_line_def getAnswer_cached getMessageHistoryEntry_def file_write_def Let_def
      print_line_def)

text \<open>
  Claim C2. For a line that begins with the five characters \<open>- Q: \<close>, with the options
  already collected and a request that returns a message with a content, the loop body
  writes the line as it is, appends the text after the prefix, stripped, to the history as a
  \<open>user\<close> entry, sends one request with that whole history, appends the returned message to
  the history, and then writes \<open>- A: \<close>, the stripped content and a line feed.
\<close>
theorem question_line_is_written_asked_and_answered:
  assumes "startswith line ''- Q: ''"
    and "requestOptions w \<noteq> []"
    and "api (requestOptions w)
           (messages @ [Dict [(''role'', ''user''), (''content'', strip (drop 5 line))]])
         = Inr (answer # others)"
    and "content answer = Some body"
  shows "process_line api messages line w =
           Some (Inr (messages @ [Dict [(''role'', ''user''), (''content'', strip (drop 5 line))],
                                  Message answer]),
                 w\<lparr>stdout := stdout w @ [Print (''generating answer for: '' @ strip (drop 5 line))],
                   requests := requests w @
                     [(requestOptions w,
                       messages @ [Dict [(''role'', ''user''), (''content'', strip (drop 5 line))]])],
                   outputFile := outputFile w @ line @ ''- A: '' @ strip body @ [NL]\<rparr>)"
  using assms by (rule process_line_question)

theorem question_line_is_written_asked_and_answered_witness:
  "startswith (''- Q:  What is 2+2? '' @ [NL]) ''- Q: ''
   \<and> requestOptions ready_world \<noteq> []
   \<and> constant_api '' 4 '' (requestOptions ready_world)
        ([] @ [Dict [(''role'', ''user''), (''content'', ''What is 2+2?'')]]) = Inr (reply '' 4 '' # [])
   \<and> content (reply '' 4 '') = Some '' 4 ''
   \<and> process_line (constant_api '' 4 '') [] (''- Q:  What is 2+2? '' @ [NL]) ready_world =
        Some (Inr [Dict [(''role'', ''user''), (''content'', ''What is 2+2?'')], Message (reply '' 4 '')],
              ready_world\<lparr>stdout := [Print ''generating answer for: What is 2+2?''],
                requests := [(requestOptions ready_world,
                              [Dict [(''role'', ''user''), (''content'', ''What is 2+2?'')]])],
                outputFile := ''- Q:  What is 2+2? '' @ [NL] @ ''- A: 4'' @ [NL]\<rparr>)"
  using question_line_is_written_asked_and_answered
          [of "''- Q:  What is 2+2? '' @ [NL]" ready_world "constant_api '' 4 ''" "[]"
              "reply '' 4 ''" "[]" "'' 4 ''"]
  by (simp add: startswith_def ready_world_def constant_api_def reply_def strip_def isspace_def)

subsection \<open>Two questions in a row\<close>



lemma well_split_file_lines: "well_split (file_lines s)"
proof (induction s)
  case Nil
  then show ?case by simp
next
  case (Cons c cs)
  show ?case
  proof (cases "file_lines cs")
    case Nil
    then show ?thesis by simp
  next
    case outer: (Cons l ls)
    show ?thesis
    proof (cases ls)
      case Nil
      with outer Cons show ?thesis
        by (auto simp: terminated_def)
    next
      case inner: (Cons m ms)
      with outer Cons show ?thesis
        by (auto simp: terminated_def)
    qed
  qed
qed

lemma well_split_front: "well_split (xs @ ys) \<Longrightarrow> ys \<noteq> [] \<Longrightarrow> list_all terminated xs"
proof (induction xs)
  case Nil
  then show ?case by simp
next
  case (Cons x xs)
  then show ?case
    by (cases "xs @ ys") auto
qed

lemma file_lines_line: "NL \<notin> set l \<Longrightarrow> file_lines (l @ NL # s) = (l @ [NL]) # file_lines s"
  by (induction l) auto

lemma file_lines_terminated:
  assumes "terminated l"
  shows "file_lines (l @ s) = l # file_lines s"
proof -
  from assms have "l = butlast l @ [NL]" and "NL \<notin> set (butlast l)"
    using append_butlast_last_id [of l] by (auto simp: terminated_def)
  then show ?thesis
    using file_lines_line [of "butlast l" s] by (metis append.assoc append_Cons append_Nil)
qed

lemma file_lines_concat:
  "list_all terminated ls \<Longrightarrow> file_lines (concat ls @ s) = ls @ file_lines s"
  by (induction ls) (auto simp: file_lines_terminated)

lemma file_lines_front:
  assumes "file_lines s = xs @ ys" and "ys \<noteq> []"
  shows "file_lines (concat xs) = xs"
proof -
  from assms have "list_all terminated xs"
    using well_split_file_lines [of s] well_split_front by simp
  then show ?thesis
    using file_lines_concat [of xs "[]"] by simp
qed

text \<open>
  Claim C4, amended. For an input of two Question lines and no system message, the history
  sent with the second request has three entries: the first question as a \<open>user\<close> entry, the
  first answer, and the second question as a \<open>user\<close> entry. The history has four entries
  only once the second answer has been appended, at the end of the run.
\<close>
theorem second_request_carries_three_entries:
  assumes "file_lines inputFile = [line1, line2]"
    and "startswith line1 ''- Q: ''" and "startswith line2 ''- Q: ''"
    and "requestOptions w \<noteq> []"
    and "api (requestOptions w) [user_message line1] = Inr (answer1 # others1)"
    and "content answer1 = Some body1"
    and "api (requestOptions w) [user_message line1, Message answer1, user_message line2]
         = Inr (answer2 # others2)"
    and "content answer2 = Some body2"
  shows "fillOutputFileUsingConversationHistory api None inputFile w =
           Some (Inr [user_message line1, Message answer1, user_message line2, Message answer2],
                 w\<lparr>stdout := stdout w @
                     [Print (''generating answer for: '' @ strip (drop 5 line1)),
                      Print (''generating answer for: '' @ strip (drop 5 line2))],
                   requests := requests w @
                     [(requestOptions w, [user_message line1]),
                      (requestOptions w,
                       [user_message line1, Message answer1, user_message line2])],
                   outputFile := line1 @ ''- A: '' @ strip body1 @ [NL]
                                 @ line2 @ ''- A: '' @ strip body2 @ [NL]\<rparr>)"
  using assms(2-)
  by (simp add: fillOutputFileUsingConversationHistory_def assms(1) process_line_def
      getAnswer_cached getMessageHistoryEntry_def file_write_def Let_def print_line_def)

theorem second_request_carries_three_entries_witness:
  "file_lines two_questions = [''- Q: one'' @ [NL], ''- Q: two'' @ [NL]]
   \<and> startswith (''- Q: one'' @ [NL]) ''- Q: '' \<and> startswith (''- Q: two'' @ [NL]) ''- Q: ''
   \<and> requestOptions ready_world \<noteq> []
   \<and> constant_api ''fine'' (requestOptions ready_world) [user_message (''- Q: one'' @ [NL])]
       = Inr (reply ''fine'' # [])
   \<and> content (reply ''fine'') = Some ''fine''
   \<and> constant_api ''fine'' (requestOptions ready_world)
         [user_message (''- Q: one'' @ [NL]), Message (reply ''fine''),
          user_message (''- Q: two'' @ [NL])]
       = Inr (reply ''fine'' # [])
   \<and> map snd (requests (snd (the (fillOutputFileUsingConversationHistory (constant_api ''fine'')
                                     None two_questions ready_world)))) =
       [[Dict [(''role'', ''user''), (''content'', ''one'')]],
        [Dict [(''role'', ''user''), (''content'', ''one'')], Message (reply ''fine''),
         Dict [(''role'', ''user''), (''content'', ''two'')]]]"
  using second_request_carries_three_entries
          [of two_questions "''- Q: one'' @ [NL]" "''- Q: two'' @ [NL]" ready_world
              "constant_api ''fine''" "reply ''fine''" "[]" "''fine''" "reply ''fine''" "[]" "''fine''"]
  by (simp add: two_questions_def startswith_def ready_world_def constant_api_def reply_def
      strip_def isspace_def)

theorem second_request_four_entries_counterexample:
  "length (snd (requests (snd (the (fillOutputFileUsingConversationHistory (constant_api ''fine'')
                                      None two_questions ready_world))) ! 1)) \<noteq> 4"
  by (simp add: fillOutputFileUsingConversationHistory_def two_questions_def process_line_def
      getAnswer_def getRequestOptions_def getMessageHistoryEntry_def file_write_def Let_def
      print_line_def startswith_def ready_world_def constant_api_def reply_def)

subsection \<open>A request that fails\<close>

text \<open>
  Claim C8, amended. If the lines before a Question line are processed normally and the
  request for that Question line raises an error, the rewriter ends with that error. The
  request was sent once. The output file holds what the run over the preceding lines wrote,
  followed by the failing Question line itself, which is written before the request is
  made; nothing of the lines after it is written.
\<close>
theorem request_error_aborts_the_run:
  assumes "file_lines inputFile = before @ line # after"
    and "fillOutputFileUsingConversationHistory api system_message (concat before) w
         = Some (Inr messages1, w1)"
    and "startswith line ''- Q: ''"
    and "requestOptions w1 \<noteq> []"
    and "api (requestOptions w1) (messages1 @ [user_message line]) = Inl e"
  shows "fillOutputFileUsingConversationHistory api system_message inputFile w =
           Some (Inl e,
                 w1\<lparr>stdout := stdout w1 @ [Print (''generating answer for: '' @ strip (drop 5 line))],
                   requests := requests w1 @ [(requestOptions w1, messages1 @ [user_message line])],
                   outputFile := outputFile w1 @ line\<rparr>)"
proof -
  have "file_lines (concat before) = before"
    using assms(1) by (rule file_lines_front) simp
  moreover have "process_line api messages1 line w1 =
           Some (Inl e,
                 w1\<lparr>stdout := stdout w1 @ [Print (''generating answer for: '' @ strip (drop 5 line))],
                   requests := requests w1 @ [(requestOptions w1, messages1 @ [user_message line])],
                   outputFile := outputFile w1 @ line\<rparr>)"
    using assms(3-5) by (rule process_line_question_error)
  ultimately show ?thesis
    using assms(2)
    unfolding fillOutputFileUsingConversationHistory_def assms(1)
    by (simp add: process_lines_append)
qed

theorem request_error_aborts_the_run_witness:
  "file_lines heading_and_two_questions
     = [''# Test'' @ [NL], ''- Q: one'' @ [NL]] @ (''- Q: two'' @ [NL]) # [''bye'' @ [NL]]
   \<and> startswith (''- Q: two'' @ [NL]) ''- Q: ''
   \<and> fst (the (fillOutputFileUsingConversationHistory flaky_api None heading_and_two_questions
                 ready_world)) = Inl (APIError ''connection lost'')
   \<and> outputFile (snd (the (fillOutputFileUsingConversationHistory flaky_api None
                             heading_and_two_questions ready_world)))
     = ''# Test'' @ [NL] @ ''- Q: one'' @ [NL] @ ''- A: fine'' @ [NL] @ ''- Q: two'' @ [NL]
   \<and> length (requests (snd (the (fillOutputFileUsingConversationHistory flaky_api None
                             heading_and_two_questions ready_world)))) = 2"
proof -
  let ?w1 = "ready_world\<lparr>stdout := [Print ''generating answer for: one''],
               requests := [(requestOptions ready_world, [Dict [(''role'', ''user''), (''content'', ''one'')]])],
               outputFile := ''# Test'' @ [NL] @ ''- Q: one'' @ [NL] @ ''- A: fine'' @ [NL]\<rparr>"
  let ?m1 = "[Dict [(''role'', ''user''), (''content'', ''one'')], Message (reply ''fine'')]"
  have lines: "file_lines heading_and_two_questions
     = [''# Test'' @ [NL], ''- Q: one'' @ [NL]] @ (''- Q: two'' @ [NL]) # [''bye'' @ [NL]]"
    by (simp add: heading_and_two_questions_def)
  have before: "fillOutputFileUsingConversationHistory flaky_api None
                  (concat [''# Test'' @ [NL], ''- Q: one'' @ [NL]]) ready_world
                = Some (Inr ?m1, ?w1)"
    by (simp add: fillOutputFileUsingConversationHistory_def process_line_def
        getAnswer_def getRequestOptions_def getMessageHistoryEntry_def file_write_def Let_def
        print_line_def startswith_def ready_world_def flaky_api_def reply_def strip_def isspace_def)
  have q: "startswith (''- Q: two'' @ [NL]) ''- Q: ''"
    by (simp add: startswith_def)
  have opts: "requestOptions ?w1 \<noteq> []"
    by (simp add: ready_world_def)
  have fails: "flaky_api (requestOptions ?w1) (?m1 @ [user_message (''- Q: two'' @ [NL])])
               = Inl (APIError ''connection lost'')"
    by (simp add: flaky_api_def)
  show ?thesis
    using request_error_aborts_the_run [OF lines before q opts fails] lines q
    by simp
qed

theorem request_error_output_counterexample:
  "fst (the (fillOutputFileUsingConversationHistory flaky_api None heading_and_two_questions
               ready_world)) = Inl (APIError ''connection lost'')
   \<and> outputFile (snd (the (fillOutputFileUsingConversationHistory flaky_api None
                             heading_and_two_questions ready_world)))
     \<noteq> ''# Test'' @ [NL] @ ''- Q: one'' @ [NL] @ ''- A: fine'' @ [NL]"
  by (simp add: fillOutputFileUsingConversationHistory_def heading_and_two_questions_def
      process_line_def getAnswer_def getRequestOptions_def getMessageHistoryEntry_def
      file_write_def Let_def print_line_def startswith_def ready_world_def flaky_api_def
      reply_def strip_def isspace_def)

subsection \<open>The bounded float prompt\<close>











subsection \<open>The integer prompt\<close>










subsection \<open>The request options are asked once\<close>

lemma input_requestOptions: "requestOptions (snd (input prompt w)) = requestOptions w"
  by (simp add: input_def print_line_def split: list.splits)













subsection \<open>The lines of the output\<close>

lemma question_not_answer: "is_question l \<Longrightarrow> \<not> is_answer l"
  by (auto simp: is_question_def is_answer_def startswith_def prefix_def)

lemma answer_line_kind: "is_answer (answer_line a)" "\<not> is_question (answer_line a)"
  by (simp_all add: is_question_def is_answer_def answer_line_def startswith_def)

lemma generated_answers_append:
  "generated_answers (xs @ ys) = generated_answers xs @ generated_answers ys"
  by (induction xs rule: generated_answers.induct) (auto split: option.splits)

lemma input_outputFile: "outputFile (snd (input prompt w)) = outputFile w"
  by (simp add: input_def print_line_def split: list.splits)

lemma inputFloatBetween_outputFile:
  assumes "inputFloatBetween question lo hi allow_null w = Some y"
  shows "outputFile (snd y) = outputFile w"
  using assms
proof (rule inputFloatBetween.raw_induct
         [rotated, where P = "\<lambda>q lo hi a v z. outputFile (snd z) = outputFile v"],
       goal_cases)
  case (1 loop q lo hi a v z)
  show ?case
  proof (cases "stdin v")
    case Nil
    with 1 show ?thesis
      by (fastforce simp: input_def print_line_def)
  next
    case (Cons r rest)
    with 1 show ?thesis
      by (fastforce simp: input_def print_line_def split: if_splits option.splits)
  qed
qed

lemma inputInt_outputFile:
  assumes "inputInt question allow_null w = Some y"
  shows "outputFile (snd y) = outputFile w"
  using assms
proof (rule inputInt.raw_induct
         [rotated, where P = "\<lambda>q a v z. outputFile (snd z) = outputFile v"],
       goal_cases)
  case (1 loop q a v z)
  show ?case
  proof (cases "stdin v")
    case Nil
    with 1 show ?thesis
      by (fastforce simp: input_def print_line_def)
  next
    case (Cons r rest)
    with 1 show ?thesis
      by (fastforce simp: input_def print_line_def split: if_splits option.splits)
  qed
qed

lemma inputStringOrDefault_outputFile:
  "outputFile (snd (inputStringOrDefault question default_value w)) = outputFile w"
  by (simp add: inputStringOrDefault_def inputStringOrNull_def input_def print_line_def Let_def
      split: list.splits)

lemma set_option_outputFile: "outputFile (set_option key v w) = outputFile w"
  by (simp add: set_option_def)

lemma set_option_unless_none_outputFile:
  "outputFile (set_option_unless_none key v w) = outputFile w"
  by (cases v) (simp_all add: set_option_unless_none_def set_option_def)

lemma getRequestOptions_outputFile:
  assumes "getRequestOptions w = Some (r, w')"
  shows "outputFile w' = outputFile w"
proof (cases "requestOptions w = []")
  case False
  with assms show ?thesis
    by (auto simp: getRequestOptions_def)
next
  case True
  obtain r1 w1 where s1: "inputStringOrDefault model_question ''local-model''
                            (print_line (Print options_banner) w) = (r1, w1)"
    by (cases "inputStringOrDefault model_question ''local-model''
                 (print_line (Print options_banner) w)")
  have o1: "outputFile w1 = outputFile w"
    using inputStringOrDefault_outputFile
            [of model_question "''local-model''" "print_line (Print options_banner) w"]
    unfolding s1 by (simp add: print_line_def)
  show ?thesis
  proof (cases r1)
    case (Inl e)
    with assms True s1 o1 show ?thesis
      by (simp add: getRequestOptions_def)
  next
    case (Inr model)
    with assms True s1 obtain frequency_penalty w2 max_tokens w3 presence_penalty w4
        temperature w5
      where f: "inputFloatBetween frequency_penalty_question (Finite (- 2)) (Finite 2) True
                  (set_option ''model'' (StrVal model) w1) = Some (frequency_penalty, w2)"
        and t: "inputInt max_tokens_question True
                  (set_option_unless_none ''frequency_penalty''
                     (map_option FloatVal frequency_penalty) w2) = Some (max_tokens, w3)"
        and p: "inputFloatBetween presence_penalty_question (Finite (- 2)) (Finite 2) True
                  (set_option_unless_none ''max_tokens'' (map_option IntVal max_tokens) w3)
                = Some (presence_penalty, w4)"
        and te: "inputFloatBetween temperature_question (Finite 0) (Finite 2) True
                  (set_option_unless_none ''presence_penalty''
                     (map_option FloatVal presence_penalty) w4) = Some (temperature, w5)"
        and final: "w' = set_option_unless_none ''temperature''
                           (map_option FloatVal temperature) w5"
      by (auto simp: getRequestOptions_def Let_def split: prod.splits option.splits)
    have "outputFile w2 = outputFile w"
      using inputFloatBetween_outputFile [OF f] o1 by (simp add: set_option_outputFile)
    then have "outputFile w3 = outputFile w"
      using inputInt_outputFile [OF t] by (simp add: set_option_unless_none_outputFile)
    then have "outputFile w4 = outputFile w"
      using inputFloatBetween_outputFile [OF p] by (simp add: set_option_unless_none_outputFile)
    then have "outputFile w5 = outputFile w"
      using inputFloatBetween_outputFile [OF te] by (simp add: set_option_unless_none_outputFile)
    with final show ?thesis
      by (simp add: set_option_unless_none_outputFile)
  qed
qed

lemma getAnswer_outputFile:
  assumes "getAnswer api messages w = Some (r, w')"
  shows "outputFile w' = outputFile w"
proof (cases "getRequestOptions w")
  case None
  with assms show ?thesis
    by (simp add: getAnswer_def)
next
  case (Some y)
  obtain r1 w1 where y: "y = (r1, w1)"
    by (cases y)
  from Some y have "outputFile w1 = outputFile w"
    using getRequestOptions_outputFile by simp
  with assms Some y show ?thesis
    by (auto simp: getAnswer_def Let_def split: sum.splits list.splits)
qed

lemma process_line_output:
  assumes "process_line api messages l w = Some (Inr messages', w')"
  shows "if is_question l
         then \<exists>answer body. messages' = messages @ [user_message l, Message answer]
                \<and> content answer = Some body
                \<and> outputFile w' = outputFile w @ l @ answer_line (strip body)
         else messages' = messages
                \<and> outputFile w' = outputFile w @ (if is_answer l then [] else l)"
proof (cases "is_question l")
  case False
  with assms show ?thesis
    by (auto simp: process_line_def is_question_def is_answer_def file_write_def
        split: if_splits)
next
  case True
  let ?w2 = "print_line (Print (''generating answer for: '' @ strip (drop 5 l)))
               (file_write l w)"
  let ?m1 = "messages @ [user_message l]"
  from assms True obtain answer w3 body
    where a: "getAnswer api ?m1 ?w2 = Some (Inr answer, w3)"
      and b: "content answer = Some body"
      and m: "messages' = ?m1 @ [Message answer]"
      and w: "w' = file_write (''- A: '' @ strip body @ [NL]) w3"
    by (auto simp: process_line_def is_question_def Let_def getMessageHistoryEntry_def
        split: option.splits sum.splits prod.splits)
  from a have "outputFile w3 = outputFile w @ l"
    using getAnswer_outputFile by (fastforce simp: print_line_def file_write_def)
  with True b m w show ?thesis
    by (simp add: file_write_def answer_line_def)
qed

lemma process_lines_output:
  assumes "process_lines api messages ls w = Some (Inr messages', w')"
  shows "\<exists>new. messages' = messages @ new
           \<and> length (generated_answers new) = length (filter is_question ls)
           \<and> outputFile w' = outputFile w @ concat (spec_output ls (generated_answers new))"
  using assms
proof (induction ls arbitrary: messages w)
  case Nil
  then show ?case by simp
next
  case (Cons l ls)
  from Cons.prems obtain messages1 w1
    where first: "process_line api messages l w = Some (Inr messages1, w1)"
      and rest: "process_lines api messages1 ls w1 = Some (Inr messages', w')"
    by (auto split: option.splits sum.splits prod.splits)
  from Cons.IH [OF rest] obtain new
    where new: "messages' = messages1 @ new"
      "length (generated_answers new) = length (filter is_question ls)"
      "outputFile w' = outputFile w1 @ concat (spec_output ls (generated_answers new))"
    by blast
  show ?case
  proof (cases "is_question l")
    case True
    with process_line_output [OF first] obtain answer body
      where step: "messages1 = messages @ [user_message l, Message answer]"
        "content answer = Some body"
        "outputFile w1 = outputFile w @ l @ answer_line (strip body)"
      by auto
    show ?thesis
      using True new step
      by (intro exI [of _ "[user_message l, Message answer] @ new"]) simp
  next
    case False
    with process_line_output [OF first]
    have step: "messages1 = messages"
      "outputFile w1 = outputFile w @ (if is_answer l then [] else l)"
      by auto
    show ?thesis
      using False new step by (intro exI [of _ new]) simp
  qed
qed

lemma rewriter_output:
  assumes "fillOutputFileUsingConversationHistory api system_message inputFile w
           = Some (Inr messages, w')"
  shows "outputFile w' = concat (spec_output (file_lines inputFile) (generated_answers messages))
       \<and> length (generated_answers messages) = length (filter is_question (file_lines inputFile))"
proof -
  let ?init = "case system_message of None \<Rightarrow> []
               | Some s \<Rightarrow> if s = [] then [] else [getMessageHistoryEntry (Str s) ''system'']"
  have init: "generated_answers ?init = []"
    by (simp add: getMessageHistoryEntry_def split: option.splits)
  from assms have "process_lines api ?init (file_lines inputFile) (w\<lparr>outputFile := []\<rparr>)
                   = Some (Inr messages, w')"
    by (simp add: fillOutputFileUsingConversationHistory_def)
  from process_lines_output [OF this] init show ?thesis
    by (auto simp: generated_answers_append)
qed

lemma file_lines_single:
  "l \<noteq> [] \<Longrightarrow> NL \<notin> set (butlast l) \<Longrightarrow> file_lines l = [l]"
proof (induction l)
  case Nil
  then show ?case by simp
next
  case (Cons c cs)
  then show ?case
    by (cases cs) (auto split: list.splits if_splits)
qed

lemma file_lines_well_split: "well_split xs \<Longrightarrow> file_lines (concat xs) = xs"
proof (induction xs rule: well_split.induct)
  case 1
  then show ?case by simp
next
  case (2 l)
  then show ?case
    by (simp add: file_lines_single)
next
  case (3 l m ls)
  then show ?case
    using file_lines_terminated [of l "concat (m # ls)"] by simp
qed

lemma well_split_Cons: "terminated x \<Longrightarrow> well_split xs \<Longrightarrow> well_split (x # xs)"
  by (cases xs) (simp_all add: terminated_def)

lemma terminated_answer_line: "NL \<notin> set a \<Longrightarrow> terminated (answer_line a)"
  by (simp add: terminated_def answer_line_def butlast_append)

lemma answer_line_chunk:
  "NL \<notin> set a \<Longrightarrow> answer_line a \<noteq> [] \<and> NL \<notin> set (butlast (answer_line a))"
  by (simp add: answer_line_def butlast_append)

lemma terminated_iff: "terminated l \<longleftrightarrow> l \<noteq> [] \<and> NL \<notin> set (butlast l) \<and> last l = NL"
  by (auto simp: terminated_def)

lemma well_split_spec_output:
  assumes "well_split ls"
    and "\<forall>l\<in>set ls. is_question l \<longrightarrow> last l = NL"
    and "\<forall>a\<in>set as. NL \<notin> set a"
  shows "well_split (spec_output ls as)"
  using assms
proof (induction ls arbitrary: as rule: well_split.induct)
  case 1
  then show ?case by simp
next
  case (2 l)
  then show ?case
    by (cases as) (auto simp: terminated_iff answer_line_chunk)
next
  case (3 l m ls)
  have rest: "well_split (spec_output (m # ls) bs)" if "\<forall>a\<in>set bs. NL \<notin> set a" for bs
    using 3 that by (intro "3.IH") auto
  from 3 have l: "terminated l"
    by simp
  show ?case
  proof (cases "is_question l")
    case True
    show ?thesis
    proof (cases as)
      case Nil
      have "well_split (spec_output (m # ls) [])"
        by (rule rest) simp
      with Nil True l show ?thesis
        by (simp del: spec_output.simps(2) add: spec_output.simps(2) [of l] well_split_Cons)
    next
      case (Cons a as')
      with "3.prems" have a: "terminated (answer_line a)"
        by (simp add: terminated_answer_line)
      from Cons "3.prems" have "well_split (spec_output (m # ls) as')"
        by (intro rest) simp
      with Cons True l a show ?thesis
        by (simp del: spec_output.simps(2) add: spec_output.simps(2) [of l] well_split_Cons)
    qed
  next
    case False
    from "3.prems" have "well_split (spec_output (m # ls) as)"
      by (intro rest) simp
    with False l show ?thesis
      by (simp del: spec_output.simps(2) add: spec_output.simps(2) [of l] well_split_Cons)
  qed
qed

lemma spec_output_questions: "filter is_question (spec_output ls as) = filter is_question ls"
  by (induction ls arbitrary: as)
     (auto simp: answer_line_kind question_not_answer split: list.splits)

lemma spec_output_others: "filter is_other (spec_output ls as) = filter is_other ls"
  by (induction ls arbitrary: as)
     (auto simp: is_other_def answer_line_kind split: list.splits)

lemma spec_output_answers:
  "length as = length (filter is_question ls) \<Longrightarrow>
   filter is_answer (spec_output ls as) = map answer_line as"
  by (induction ls arbitrary: as)
     (auto simp: answer_line_kind question_not_answer split: list.splits)

lemma spec_output_head: "spec_output ls as = b # rest \<Longrightarrow> \<not> is_answer b"
  by (induction ls arbitrary: as)
     (auto simp: question_not_answer split: list.splits if_splits)

lemma each_question_answered_skip:
  "\<not> is_question x \<Longrightarrow> each_question_answered (x # xs) = each_question_answered xs"
  by (cases xs) simp_all

lemma spec_output_answered:
  "length as = length (filter is_question ls) \<Longrightarrow> each_question_answered (spec_output ls as)"
proof (induction ls arbitrary: as)
  case Nil
  then show ?case by simp
next
  case (Cons l ls)
  show ?case
  proof (cases "is_question l")
    case True
    with Cons.prems obtain a as' where as: "as = a # as'"
      and len: "length as' = length (filter is_question ls)"
      by (cases as) auto
    have "each_question_answered (spec_output ls as')"
      using len by (rule Cons.IH)
    then have "each_question_answered (answer_line a # spec_output ls as')"
      by (simp add: each_question_answered_skip answer_line_kind)
    moreover have "case spec_output ls as' of [] \<Rightarrow> True | b # bs \<Rightarrow> \<not> is_answer b"
      using spec_output_head [of ls as'] by (auto split: list.splits)
    ultimately show ?thesis
      using True as by (simp add: answer_line_kind)
  next
    case False
    with Cons.prems have "each_question_answered (spec_output ls as)"
      by (intro Cons.IH) simp
    with False show ?thesis
      by (simp add: each_question_answered_skip)
  qed
qed

lemma process_line_returns:
  assumes "requestOptions w \<noteq> []"
    and "\<forall>opts ms. \<exists>answer others body.
           api opts ms = Inr (answer # others) \<and> content answer = Some body"
  shows "\<exists>messages' w'. process_line api messages l w = Some (Inr messages', w')
           \<and> requestOptions w' = requestOptions w"
proof (cases "startswith l ''- Q: ''")
  case True
  from assms(2) obtain answer others body
    where "api (requestOptions w) (messages @ [user_message l]) = Inr (answer # others)"
      and "content answer = Some body"
    by blast
  with True assms(1) show ?thesis
    by (simp add: process_line_question)
next
  case False
  then show ?thesis
    by (simp add: process_line_def file_write_def)
qed

lemma process_lines_returns:
  assumes "requestOptions w \<noteq> []"
    and "\<forall>opts ms. \<exists>answer others body.
           api opts ms = Inr (answer # others) \<and> content answer = Some body"
  shows "\<exists>messages' w'. process_lines api messages ls w = Some (Inr messages', w')"
  using assms(1)
proof (induction ls arbitrary: messages w)
  case Nil
  then show ?case by simp
next
  case (Cons l ls)
  from process_line_returns [OF Cons.prems assms(2)] obtain messages1 w1
    where "process_line api messages l w = Some (Inr messages1, w1)"
      and "requestOptions w1 = requestOptions w"
    by blast
  with Cons.IH [of w1 messages1] Cons.prems show ?case
    by simp
qed

lemma rewriter_lines:
  assumes "fillOutputFileUsingConversationHistory api system_message inputFile w
           = Some (Inr messages, w')"
    and "\<forall>l\<in>set (file_lines inputFile). is_question l \<longrightarrow> last l = NL"
    and "\<forall>a\<in>set (generated_answers messages). NL \<notin> set a"
  shows "file_lines (outputFile w')
         = spec_output (file_lines inputFile) (generated_answers messages)"
    and "length (generated_answers messages) = length (filter is_question (file_lines inputFile))"
proof -
  let ?ls = "file_lines inputFile" and ?as = "generated_answers messages"
  from rewriter_output [OF assms(1)]
  have out: "outputFile w' = concat (spec_output ?ls ?as)"
    and len: "length ?as = length (filter is_question ?ls)"
    by simp_all
  have "well_split (spec_output ?ls ?as)"
    using well_split_file_lines assms(2,3) by (rule well_split_spec_output)
  then show "file_lines (outputFile w') = spec_output ?ls ?as"
    unfolding out by (rule file_lines_well_split)
  show "length ?as = length (filter is_question ?ls)"
    by (rule len)
qed

text \<open>
  Claim C1, amended. Take an input in which every Question line ends with a line feed (only
  the last line of a file can lack one). If the options have been collected and every request
  returns a message with a content, the rewriter returns normally. Whenever it returns
  normally, with or without these conditions, and no answer has a line feed inside once it
  is stripped, the lines of the output file are those of the input with each Question line
  followed by the line of its answer and without the Answer lines of the input. So every
  Question line of the output is followed by exactly one Answer line, the Question lines of
  the output are those of the input, their number is the number of Answer lines of the
  output, the other lines are those of the input in the same order, and the Answer lines of
  the output are the generated ones: none comes from the input.
\<close>
theorem rewriter_output_lines:
  assumes "\<forall>l\<in>set (file_lines inputFile). is_question l \<longrightarrow> last l = NL"
  shows "(requestOptions w \<noteq> [] \<longrightarrow>
          (\<forall>opts ms. \<exists>answer others body.
             api opts ms = Inr (answer # others) \<and> content answer = Some body) \<longrightarrow>
          (\<exists>messages w'.
             fillOutputFileUsingConversationHistory api system_message inputFile w
             = Some (Inr messages, w')))
       \<and> (\<forall>messages w'.
            fillOutputFileUsingConversationHistory api system_message inputFile w
            = Some (Inr messages, w') \<longrightarrow>
            (\<forall>a\<in>set (generated_answers messages). NL \<notin> set a) \<longrightarrow>
              file_lines (outputFile w')
              = spec_output (file_lines inputFile) (generated_answers messages)
            \<and> each_question_answered (file_lines (outputFile w'))
            \<and> filter is_question (file_lines (outputFile w'))
              = filter is_question (file_lines inputFile)
            \<and> length (filter is_answer (file_lines (outputFile w')))
              = length (filter is_question (file_lines inputFile))
            \<and> filter is_other (file_lines (outputFile w'))
              = filter is_other (file_lines inputFile)
            \<and> filter is_answer (file_lines (outputFile w'))
              = map answer_line (generated_answers messages))"
proof (intro conjI impI allI)
  assume "requestOptions w \<noteq> []"
    and "\<forall>opts ms. \<exists>answer others body.
           api opts ms = Inr (answer # others) \<and> content answer = Some body"
  then show "\<exists>messages w'.
             fillOutputFileUsingConversationHistory api system_message inputFile w
             = Some (Inr messages, w')"
    unfolding fillOutputFileUsingConversationHistory_def Let_def
    by (intro process_lines_returns) simp_all
next
  fix messages w'
  assume run: "fillOutputFileUsingConversationHistory api system_message inputFile w
               = Some (Inr messages, w')"
    and clean: "\<forall>a\<in>set (generated_answers messages). NL \<notin> set a"
  let ?ls = "file_lines inputFile" and ?as = "generated_answers messages"
  have lines: "file_lines (outputFile w') = spec_output ?ls ?as"
    and len: "length ?as = length (filter is_question ?ls)"
    using run assms clean by (rule rewriter_lines)+
  show "file_lines (outputFile w') = spec_output ?ls ?as"
    by (rule lines)
  show "each_question_answered (file_lines (outputFile w'))"
    unfolding lines using len by (rule spec_output_answered)
  show "filter is_question (file_lines (outputFile w')) = filter is_question ?ls"
    unfolding lines by (rule spec_output_questions)
  show "filter is_other (file_lines (outputFile w')) = filter is_other ?ls"
    unfolding lines by (rule spec_output_others)
  show "filter is_answer (file_lines (outputFile w')) = map answer_line ?as"
    unfolding lines using len by (rule spec_output_answers)
  then show "length (filter is_answer (file_lines (outputFile w')))
             = length (filter is_question ?ls)"
    using len by simp
qed

theorem rewriter_output_lines_witness:
  "file_lines stale_transcript
     = [''# Test'' @ [NL], ''- Q: one'' @ [NL], ''- A: stale'' @ [NL], ''- Q: two'' @ [NL], ''bye'']
   \<and> fst (the (fillOutputFileUsingConversationHistory (constant_api '' fine '') None
                 stale_transcript ready_world))
     = Inr [Dict [(''role'', ''user''), (''content'', ''one'')], Message (reply '' fine ''),
            Dict [(''role'', ''user''), (''content'', ''two'')], Message (reply '' fine '')]
   \<and> file_lines (outputFile (snd (the (fillOutputFileUsingConversationHistory
                                         (constant_api '' fine '') None stale_transcript
                                         ready_world))))
     = [''# Test'' @ [NL], ''- Q: one'' @ [NL], ''- A: fine'' @ [NL],
        ''- Q: two'' @ [NL], ''- A: fine'' @ [NL], ''bye'']
   \<and> each_question_answered
       (file_lines (outputFile (snd (the (fillOutputFileUsingConversationHistory
                                            (constant_api '' fine '') None stale_transcript
                                            ready_world)))))"
proof -
  let ?api = "constant_api '' fine ''"
  let ?messages = "[Dict [(''role'', ''user''), (''content'', ''one'')], Message (reply '' fine ''),
                    Dict [(''role'', ''user''), (''content'', ''two'')], Message (reply '' fine '')]"
  have lines: "file_lines stale_transcript
     = [''# Test'' @ [NL], ''- Q: one'' @ [NL], ''- A: stale'' @ [NL], ''- Q: two'' @ [NL], ''bye'']"
    by (simp add: stale_transcript_def)
  have questions: "\<forall>l\<in>set (file_lines stale_transcript). is_question l \<longrightarrow> last l = NL"
    by (simp add: lines is_question_def startswith_def)
  have ready: "requestOptions ready_world \<noteq> []"
    by (simp add: ready_world_def)
  have answers: "\<forall>opts ms. \<exists>answer others body.
                   ?api opts ms = Inr (answer # others) \<and> content answer = Some body"
    by (simp add: constant_api_def reply_def)
  from rewriter_output_lines
         [where w = ready_world and api = ?api and system_message = None, OF questions,
          THEN conjunct1, rule_format, OF ready answers [rule_format]]
  obtain messages w'
    where run: "fillOutputFileUsingConversationHistory ?api None stale_transcript ready_world
                = Some (Inr messages, w')"
    by blast
  have body: "content (reply s) = Some s" for s
    by (simp add: reply_def)
  have "fst (the (fillOutputFileUsingConversationHistory ?api None stale_transcript ready_world))
        = Inr ?messages"
    by (simp add: fillOutputFileUsingConversationHistory_def lines process_line_def body
        getAnswer_def getRequestOptions_def getMessageHistoryEntry_def file_write_def Let_def
        print_line_def startswith_def ready_world_def constant_api_def strip_def isspace_def)
  with run have messages: "messages = ?messages"
    by simp
  have clean: "\<forall>a\<in>set (generated_answers messages). NL \<notin> set a"
    by (simp add: messages reply_def strip_def isspace_def)
  note shape = rewriter_output_lines [OF questions, THEN conjunct2, rule_format, OF run clean [rule_format]]
  have expected: "spec_output (file_lines stale_transcript) (generated_answers messages)
     = [''# Test'' @ [NL], ''- Q: one'' @ [NL], ''- A: fine'' @ [NL],
        ''- Q: two'' @ [NL], ''- A: fine'' @ [NL], ''bye'']"
    by (simp add: lines messages reply_def strip_def isspace_def is_question_def is_answer_def
        startswith_def answer_line_def)
  from shape [THEN conjunct1]
  have out: "file_lines (outputFile w')
     = [''# Test'' @ [NL], ''- Q: one'' @ [NL], ''- A: fine'' @ [NL],
        ''- Q: two'' @ [NL], ''- A: fine'' @ [NL], ''bye'']"
    unfolding expected .
  from shape [THEN conjunct2, THEN conjunct1]
  have answered: "each_question_answered (file_lines (outputFile w'))" .
  from lines out answered messages show ?thesis
    unfolding run by (simp del: each_question_answered.simps)
qed

theorem rewriter_question_count_counterexample:
  "fst (the (fillOutputFileUsingConversationHistory (constant_api (''y'' @ [NL] @ ''- Q: z''))
               None (''- Q: x'' @ [NL]) ready_world))
     = Inr [Dict [(''role'', ''user''), (''content'', ''x'')],
            Message (reply (''y'' @ [NL] @ ''- Q: z''))]
   \<and> file_lines (outputFile (snd (the (fillOutputFileUsingConversationHistory
                                         (constant_api (''y'' @ [NL] @ ''- Q: z''))
                                         None (''- Q: x'' @ [NL]) ready_world))))
     = [''- Q: x'' @ [NL], ''- A: y'' @ [NL], ''- Q: z'' @ [NL]]
   \<and> length (filter is_question
               (file_lines (outputFile (snd (the (fillOutputFileUsingConversationHistory
                                                    (constant_api (''y'' @ [NL] @ ''- Q: z''))
                                                    None (''- Q: x'' @ [NL]) ready_world))))))
     = 2
   \<and> length (filter is_question (file_lines (''- Q: x'' @ [NL]))) = 1"
  by (simp add: fillOutputFileUsingConversationHistory_def process_line_def
      getAnswer_def getRequestOptions_def getMessageHistoryEntry_def file_write_def Let_def
      print_line_def startswith_def ready_world_def constant_api_def reply_def strip_def
      isspace_def is_question_def)

subsection \<open>A second run over the output of a first\<close>













end
